theory Spec2Isabelle
  imports Complex_Main
begin

section \<open>Cross-entropy and softmax over NumPy float64 arrays\<close>

text \<open>
  The two scripts \<^verbatim>\<open>crossentropy.py\<close> and \<^verbatim>\<open>softmax.py\<close> compute with NumPy
  \<^verbatim>\<open>float64\<close> values. A value is a finite number, one of the two infinities, or
  not-a-number. The arithmetic below follows IEEE 754 on the special values and on the
  range of the format; inside the range it is exact:

  \<^item> rounding of a finite result to 53 bits is not modelled: a finite result is the real
    number that float64 would round. Statements about signs, infinities and not-a-number
    hold of the program as they are. An equation between a result and a real number
    holds of the program up to the accumulated rounding error, which is small only
    where nothing cancels; the theorems that relate a result to a real-number formula
    keep to inputs whose summands have one sign, and state a tolerance where the
    rounding of \<open>1 - P\<close> or the length of the input matters;
  \<^item> a result whose magnitude reaches \<open>2^1024 - 2^970\<close> overflows to an infinity;
  \<^item> a product, quotient or exponential whose magnitude is at most \<open>2^-1075\<close> becomes
    zero (sums and differences of float64 values are multiples of \<open>2^-1074\<close> and never
    underflow);
  \<^item> the sign of zero is not modelled; a zero divisor is taken as \<open>+0\<close>, which is what
    the only divisor of the program, a sum of exponentials, can be.

  NumPy reports overflow, division by zero and invalid operations as warnings, not as
  exceptions, so none of these operations fails.
\<close>

datatype float64 = Fin real | PInf | NInf | NaN

definition f64_max_bound :: real where
  "f64_max_bound = 2 ^ 1024 - 2 ^ 970"

definition f64_min_bound :: real where
  "f64_min_bound = 1 / 2 ^ 1075"

text \<open>
  The smallest positive normal float64. From here up to the overflow bound a rounded
  result differs from the exact one by a relative \<open>2^-53\<close> at most.
\<close>

definition f64_min_normal :: real where
  "f64_min_normal = 1 / 2 ^ 1022"

definition f64_overflow :: "real \<Rightarrow> float64" where
  "f64_overflow r =
     (if f64_max_bound \<le> r then PInf
      else if r \<le> - f64_max_bound then NInf
      else Fin r)"

definition f64_range :: "real \<Rightarrow> float64" where
  "f64_range r =
     (if \<bar>r\<bar> \<le> f64_min_bound then Fin 0 else f64_overflow r)"

fun f64_is_finite :: "float64 \<Rightarrow> bool" where
  "f64_is_finite (Fin r) = True"
| "f64_is_finite v = False"

fun f64_neg :: "float64 \<Rightarrow> float64" where
  "f64_neg (Fin r) = Fin (- r)"
| "f64_neg PInf = NInf"
| "f64_neg NInf = PInf"
| "f64_neg NaN = NaN"

fun f64_add :: "float64 \<Rightarrow> float64 \<Rightarrow> float64" where
  "f64_add (Fin a) (Fin b) = f64_overflow (a + b)"
| "f64_add NaN v = NaN"
| "f64_add v NaN = NaN"
| "f64_add PInf NInf = NaN"
| "f64_add NInf PInf = NaN"
| "f64_add PInf v = PInf"
| "f64_add NInf v = NInf"
| "f64_add v PInf = PInf"
| "f64_add v NInf = NInf"

definition f64_sub :: "float64 \<Rightarrow> float64 \<Rightarrow> float64" where
  "f64_sub a b = f64_add a (f64_neg b)"

text \<open>The sign of a product or quotient with an infinite operand.\<close>

definition f64_signed_inf :: "bool \<Rightarrow> float64" where
  "f64_signed_inf positive = (if positive then PInf else NInf)"

fun f64_mul :: "float64 \<Rightarrow> float64 \<Rightarrow> float64" where
  "f64_mul (Fin a) (Fin b) = f64_range (a * b)"
| "f64_mul NaN v = NaN"
| "f64_mul v NaN = NaN"
| "f64_mul (Fin a) PInf = (if a = 0 then NaN else f64_signed_inf (0 < a))"
| "f64_mul (Fin a) NInf = (if a = 0 then NaN else f64_signed_inf (a < 0))"
| "f64_mul PInf (Fin b) = (if b = 0 then NaN else f64_signed_inf (0 < b))"
| "f64_mul NInf (Fin b) = (if b = 0 then NaN else f64_signed_inf (b < 0))"
| "f64_mul PInf PInf = PInf"
| "f64_mul PInf NInf = NInf"
| "f64_mul NInf PInf = NInf"
| "f64_mul NInf NInf = PInf"

fun f64_div :: "float64 \<Rightarrow> float64 \<Rightarrow> float64" where
  "f64_div (Fin a) (Fin b) =
     (if b = 0 then (if a = 0 then NaN else f64_signed_inf (0 < a))
      else f64_range (a / b))"
| "f64_div NaN v = NaN"
| "f64_div v NaN = NaN"
| "f64_div (Fin a) PInf = Fin 0"
| "f64_div (Fin a) NInf = Fin 0"
| "f64_div PInf (Fin b) = f64_signed_inf (0 \<le> b)"
| "f64_div NInf (Fin b) = f64_signed_inf (b < 0)"
| "f64_div PInf PInf = NaN"
| "f64_div PInf NInf = NaN"
| "f64_div NInf PInf = NaN"
| "f64_div NInf NInf = NaN"

text \<open>\<^verbatim>\<open>np.log\<close>: minus infinity at zero, not-a-number below zero.\<close>

fun f64_log :: "float64 \<Rightarrow> float64" where
  "f64_log (Fin a) = (if a = 0 then NInf else if a < 0 then NaN else Fin (ln a))"
| "f64_log PInf = PInf"
| "f64_log NInf = NaN"
| "f64_log NaN = NaN"

text \<open>\<^verbatim>\<open>np.exp\<close>: overflows to infinity, underflows to zero.\<close>

fun f64_exp :: "float64 \<Rightarrow> float64" where
  "f64_exp (Fin a) = f64_range (exp a)"
| "f64_exp PInf = PInf"
| "f64_exp NInf = Fin 0"
| "f64_exp NaN = NaN"


fun f64_nonneg :: "float64 \<Rightarrow> bool" where
  "f64_nonneg (Fin r) = (0 \<le> r)"
| "f64_nonneg PInf = True"
| "f64_nonneg v = False"

text \<open>\<^verbatim>\<open>abs(v - c) <= tol\<close> for a finite \<open>c\<close>: false unless \<open>v\<close> is finite.\<close>

fun f64_within :: "real \<Rightarrow> real \<Rightarrow> float64 \<Rightarrow> bool" where
  "f64_within tol c (Fin r) = (\<bar>r - c\<bar> \<le> tol)"
| "f64_within tol c v = False"

subsection \<open>One-dimensional arrays\<close>

text \<open>
  An array of shape \<open>(n,)\<close> is a list. A binary operation on two arrays broadcasts:
  equal shapes combine elementwise, a shape \<open>(1,)\<close> is stretched to the other shape,
  and any other pair of shapes raises \<^verbatim>\<open>ValueError\<close> (operands could not be broadcast
  together).
\<close>

datatype error = ValueError

definition broadcast ::
  "(float64 \<Rightarrow> float64 \<Rightarrow> float64) \<Rightarrow> float64 list \<Rightarrow> float64 list \<Rightarrow> error + float64 list"
where
  "broadcast f A B =
     (if length A = length B then Inr (map2 f A B)
      else if length A = 1 then Inr (map (f (hd A)) B)
      else if length B = 1 then Inr (map (\<lambda>a. f a (hd B)) A)
      else Inl ValueError)"

definition np_mul :: "float64 list \<Rightarrow> float64 list \<Rightarrow> error + float64 list" where
  "np_mul = broadcast f64_mul"

definition np_add :: "float64 list \<Rightarrow> float64 list \<Rightarrow> error + float64 list" where
  "np_add = broadcast f64_add"

text \<open>\<^verbatim>\<open>1 - A\<close>: the scalar is combined with every element.\<close>

definition np_rsub :: "float64 \<Rightarrow> float64 list \<Rightarrow> float64 list" where
  "np_rsub c A = map (f64_sub c) A"

definition np_log :: "float64 list \<Rightarrow> float64 list" where
  "np_log A = map f64_log A"

definition np_exp :: "float64 list \<Rightarrow> float64 list" where
  "np_exp A = map f64_exp A"

text \<open>
  \<^verbatim>\<open>np.sum\<close> adds the elements to an accumulator that starts at zero, in index order.
  This is NumPy's order below eight elements; longer arrays are added in blocks whose
  partial sums are then combined, which differs in rounding and, when finite elements
  of both signs come close to the overflow bound, in which partial sum overflows.
\<close>

definition np_sum :: "float64 list \<Rightarrow> float64" where
  "np_sum A = foldl f64_add (Fin 0) A"

text \<open>
  \<^verbatim>\<open>np.float_\<close> (NumPy 1.x, an alias of \<^verbatim>\<open>np.float64\<close>; here \<open>np_float\<close>) turns a list of numbers
  into a float64 array; the model's lists already hold float64 values.
\<close>

definition np_float :: "float64 list \<Rightarrow> float64 list" where
  "np_float A = A"

subsection \<open>crossentropy.py\<close>

text \<open>
  \<^verbatim>\<open>
  def cross_entropy(Y,P):
      Y = np.float_(Y)
      P = np.float_(P)
      return -np.sum(Y * np.log(P) + (1 - Y) * np.log(1 - P))
  \<close>
  The left product is evaluated first, then the right one, then their sum; the first
  shape mismatch raises.
\<close>

definition cross_entropy :: "float64 list \<Rightarrow> float64 list \<Rightarrow> error + float64" where
  "cross_entropy Y0 P0 =
     (let Y = np_float Y0; P = np_float P0 in
      case np_mul Y (np_log P) of
        Inl e \<Rightarrow> Inl e
      | Inr A \<Rightarrow>
          (case np_mul (np_rsub (Fin 1) Y) (np_log (np_rsub (Fin 1) P)) of
             Inl e \<Rightarrow> Inl e
           | Inr B \<Rightarrow>
               (case np_add A B of
                  Inl e \<Rightarrow> Inl e
                | Inr C \<Rightarrow> Inr (f64_neg (np_sum C)))))"

definition listy :: "float64 list" where
  "listy = [Fin 1, Fin 0, Fin 1, Fin 1]"

definition listp :: "float64 list" where
  "listp = [Fin (4/10), Fin (6/10), Fin (1/10), Fin (5/10)]"

definition cross_entropy_answer :: "error + float64" where
  "cross_entropy_answer = cross_entropy listy listp"

text \<open>
  The value of the array expression
  \<^verbatim>\<open>Y * np.log(P) + (1 - Y) * np.log(1 - P)\<close> at one index, from the elements
  \<open>y\<close> of \<open>Y\<close> and \<open>p\<close> of \<open>P\<close> that meet there.
\<close>

definition cross_entropy_term :: "float64 \<Rightarrow> float64 \<Rightarrow> float64" where
  "cross_entropy_term y p =
     f64_add (f64_mul y (f64_log p))
             (f64_mul (f64_sub (Fin 1) y) (f64_log (f64_sub (Fin 1) p)))"

subsection \<open>softmax.py\<close>

text \<open>
  \<^verbatim>\<open>
  def softmax(L):
      expl = np.exp(L)
      sumExpl = np.sum(expl)
      result = []
      for i in expl:
          result.append(i/sumExpl)
      return result
  \<close>
  The loop state is the list \<open>result\<close>, together with a count of the divisions the loop
  has performed (a ghost counter, not a variable of the source).
\<close>

fun softmax_loop :: "float64 list \<Rightarrow> float64 \<Rightarrow> float64 list \<times> nat \<Rightarrow> float64 list \<times> nat" where
  "softmax_loop [] sumExpl st = st"
| "softmax_loop (i # rest) sumExpl (result, divisions) =
     softmax_loop rest sumExpl (result @ [f64_div i sumExpl], Suc divisions)"

definition softmax_run :: "float64 list \<Rightarrow> float64 list \<times> nat" where
  "softmax_run L =
     (let expl = np_exp L;
          sumExpl = np_sum expl
      in softmax_loop expl sumExpl ([], 0))"

definition softmax :: "float64 list \<Rightarrow> float64 list" where
  "softmax L = fst (softmax_run L)"

definition list1 :: "float64 list" where
  "list1 = [Fin 5, Fin 6, Fin 7, Fin 8]"

definition ans :: "float64 list" where
  "ans = softmax list1"

section \<open>Properties\<close>

subsection \<open>Values inside the float64 range\<close>

lemma f64_max_bound_large: "1000 < f64_max_bound"
  by (simp add: f64_max_bound_def)

lemma f64_min_bound_small: "0 < f64_min_bound" "f64_min_bound \<le> 1 / 1000"
  by (simp_all add: f64_min_bound_def)

lemma f64_overflow_Fin: "\<bar>r\<bar> < f64_max_bound \<Longrightarrow> f64_overflow r = Fin r"
  by (auto simp: f64_overflow_def)

lemma f64_range_Fin:
  "f64_min_bound < \<bar>r\<bar> \<Longrightarrow> \<bar>r\<bar> < f64_max_bound \<Longrightarrow> f64_range r = Fin r"
  by (simp add: f64_range_def f64_overflow_Fin)

lemma f64_range_zero: "f64_range 0 = Fin 0"
  using f64_min_bound_small by (simp add: f64_range_def)

lemma f64_overflow_small: "\<bar>r\<bar> \<le> 1000 \<Longrightarrow> f64_overflow r = Fin r"
  using f64_max_bound_large by (auto simp: f64_overflow_def)

lemma f64_min_lt_max: "f64_min_bound < f64_max_bound"
  using f64_min_bound_small f64_max_bound_large by linarith

lemma f64_max_bound_huge: "2 ^ 80 < f64_max_bound"
  by (simp add: f64_max_bound_def)

lemma f64_max_bound_near: "2 ^ 1023 < f64_max_bound" "f64_max_bound \<le> 2 * 2 ^ 1023"
  by (simp_all add: f64_max_bound_def)


lemma f64_min_bound_tiny: "f64_min_bound < 1 / 2 ^ 1074"
  by (simp add: f64_min_bound_def)

lemma f64_normal_range: "f64_min_bound < f64_min_normal" "2 ^ 1023 < f64_max_bound"
  by (simp_all add: f64_min_bound_def f64_min_normal_def f64_max_bound_def)

subsection \<open>The array expression of \<open>cross_entropy\<close>, shape by shape\<close>

lemma map2_map_map: "map2 f (map g xs) (map h xs) = map (\<lambda>x. f (g x) (h x)) xs"
  by (induction xs) simp_all

lemma map2_map_both: "map2 f (map g xs) (map h ys) = map2 (\<lambda>x y. f (g x) (h y)) xs ys"
  by (induction xs ys rule: list_induct2') simp_all

lemma map2_map2: "length xs = length ys \<Longrightarrow>
   map2 f (map2 g xs ys) (map2 h xs ys) = map2 (\<lambda>x y. f (g x y) (h x y)) xs ys"
  by (induction xs ys rule: list_induct2) simp_all

lemma cross_entropy_same_length:
  assumes "length Y = length P"
  shows "cross_entropy Y P = Inr (f64_neg (np_sum (map2 cross_entropy_term Y P)))"
proof -
  have A: "np_mul Y (np_log P) = Inr (map2 (\<lambda>y p. f64_mul y (f64_log p)) Y P)"
    using assms by (simp add: np_mul_def broadcast_def np_log_def zip_map2 case_prod_unfold)
  have B: "np_mul (np_rsub (Fin 1) Y) (np_log (np_rsub (Fin 1) P)) =
      Inr (map2 (\<lambda>y p. f64_mul (f64_sub (Fin 1) y) (f64_log (f64_sub (Fin 1) p))) Y P)"
    using assms by (simp add: np_mul_def broadcast_def np_log_def np_rsub_def map2_map_both)
  have C: "np_add (map2 (\<lambda>y p. f64_mul y (f64_log p)) Y P)
       (map2 (\<lambda>y p. f64_mul (f64_sub (Fin 1) y) (f64_log (f64_sub (Fin 1) p))) Y P)
     = Inr (map2 cross_entropy_term Y P)"
    using assms by (simp add: np_add_def broadcast_def map2_map2 cross_entropy_term_def)
  show ?thesis
    by (simp add: cross_entropy_def np_float_def A B C)
qed

lemma cross_entropy_stretch_Y:
  assumes "length Y = 1" "length P \<noteq> 1"
  shows "cross_entropy Y P = Inr (f64_neg (np_sum (map (cross_entropy_term (hd Y)) P)))"
proof -
  from assms obtain y where Y: "Y = [y]" by (cases Y) auto
  have A: "np_mul Y (np_log P) = Inr (map (\<lambda>p. f64_mul y (f64_log p)) P)"
    using assms by (simp add: Y np_mul_def broadcast_def np_log_def comp_def)
  have B: "np_mul (np_rsub (Fin 1) Y) (np_log (np_rsub (Fin 1) P)) =
      Inr (map (\<lambda>p. f64_mul (f64_sub (Fin 1) y) (f64_log (f64_sub (Fin 1) p))) P)"
    using assms by (simp add: Y np_mul_def broadcast_def np_log_def np_rsub_def comp_def)
  have C: "np_add (map (\<lambda>p. f64_mul y (f64_log p)) P)
       (map (\<lambda>p. f64_mul (f64_sub (Fin 1) y) (f64_log (f64_sub (Fin 1) p))) P)
     = Inr (map (cross_entropy_term y) P)"
    by (simp add: np_add_def broadcast_def map2_map_map cross_entropy_term_def)
  show ?thesis
    by (simp add: cross_entropy_def np_float_def A B C) (simp add: Y)
qed

lemma cross_entropy_stretch_P:
  assumes "length P = 1" "length Y \<noteq> 1"
  shows "cross_entropy Y P = Inr (f64_neg (np_sum (map (\<lambda>y. cross_entropy_term y (hd P)) Y)))"
proof -
  from assms obtain p where P: "P = [p]" by (cases P) auto
  have A: "np_mul Y (np_log P) = Inr (map (\<lambda>y. f64_mul y (f64_log p)) Y)"
    using assms by (simp add: P np_mul_def broadcast_def np_log_def comp_def)
  have B: "np_mul (np_rsub (Fin 1) Y) (np_log (np_rsub (Fin 1) P)) =
      Inr (map (\<lambda>y. f64_mul (f64_sub (Fin 1) y) (f64_log (f64_sub (Fin 1) p))) Y)"
    using assms by (simp add: P np_mul_def broadcast_def np_log_def np_rsub_def comp_def)
  have C: "np_add (map (\<lambda>y. f64_mul y (f64_log p)) Y)
       (map (\<lambda>y. f64_mul (f64_sub (Fin 1) y) (f64_log (f64_sub (Fin 1) p))) Y)
     = Inr (map (\<lambda>y. cross_entropy_term y p) Y)"
    by (simp add: np_add_def broadcast_def map2_map_map cross_entropy_term_def)
  show ?thesis
    by (simp add: cross_entropy_def np_float_def A B C) (simp add: P)
qed

lemma cross_entropy_mismatch:
  assumes "length Y \<noteq> length P" "length Y \<noteq> 1" "length P \<noteq> 1"
  shows "cross_entropy Y P = Inl ValueError"
  using assms by (simp add: cross_entropy_def np_float_def np_mul_def broadcast_def np_log_def)

lemma map2_replicate_left: "map2 f (replicate (length ys) x) ys = map (f x) ys"
  by (induction ys) simp_all

lemma map2_replicate_right: "map2 f xs (replicate (length xs) y) = map (\<lambda>x. f x y) xs"
  by (induction xs) simp_all

lemma ln_half_bounds: "ln (1/2::real) \<le> - (1/2)" "- 1 \<le> ln (1/2::real)"
proof -
  show "ln (1/2::real) \<le> - (1/2)"
    using ln_le_minus_one [of "1/2::real"] by simp
  have "ln (2::real) \<le> 2 - 1" by (rule ln_le_minus_one) simp
  moreover have "ln (1/2::real) = - ln 2" by (simp add: ln_div)
  ultimately show "- 1 \<le> ln (1/2::real)" by simp
qed

lemma cross_entropy_term_one:
  assumes "0 < p" "p < 1" "f64_min_bound < - ln p" "- ln p < f64_max_bound"
  shows "cross_entropy_term (Fin 1) (Fin p) = Fin (ln p)"
proof -
  have a: "f64_mul (Fin 1) (f64_log (Fin p)) = Fin (ln p)"
    using assms by (simp add: f64_range_Fin)
  have b: "f64_sub (Fin 1) (Fin 1) = Fin 0"
    by (simp add: f64_sub_def f64_overflow_small)
  have c: "f64_sub (Fin 1) (Fin p) = Fin (1 - p)"
    using assms by (simp add: f64_sub_def f64_overflow_small)
  have d: "f64_mul (Fin 0) (f64_log (Fin (1 - p))) = Fin 0"
    using assms by (simp add: f64_range_zero)
  have e: "f64_overflow (ln p) = Fin (ln p)"
    using assms by (intro f64_overflow_Fin) simp
  show ?thesis
    unfolding cross_entropy_term_def c b a d by (simp add: e)
qed

lemma cross_entropy_term_zero:
  assumes "0 < p" "p < 1" "f64_min_bound < - ln (1 - p)" "- ln (1 - p) < f64_max_bound"
  shows "cross_entropy_term (Fin 0) (Fin p) = Fin (ln (1 - p))"
proof -
  have a: "f64_mul (Fin 0) (f64_log (Fin p)) = Fin 0"
    using assms by (simp add: f64_range_zero)
  have b: "f64_sub (Fin 1) (Fin 0) = Fin 1"
    by (simp add: f64_sub_def f64_overflow_small)
  have c: "f64_sub (Fin 1) (Fin p) = Fin (1 - p)"
    using assms by (simp add: f64_sub_def f64_overflow_small)
  have d: "f64_mul (Fin 1) (f64_log (Fin (1 - p))) = Fin (ln (1 - p))"
    using assms by (simp add: f64_range_Fin)
  have e: "f64_overflow (ln (1 - p)) = Fin (ln (1 - p))"
    using assms by (intro f64_overflow_Fin) simp
  show ?thesis
    unfolding cross_entropy_term_def c b a d by (simp add: e)
qed

lemma cross_entropy_term_one_half: "cross_entropy_term (Fin 1) (Fin (1/2)) = Fin (ln (1/2))"
  using ln_half_bounds f64_min_bound_small f64_max_bound_large
  by (intro cross_entropy_term_one) auto

lemma ce_stretched: "cross_entropy [Fin 1] [Fin (1/2), Fin (1/2)] = Inr (Fin (2 * ln 2))"
proof -
  have "f64_overflow (ln (1/2)) = Fin (ln (1/2))"
    "f64_overflow (ln (1/2) + ln (1/2)) = Fin (ln (1/2) + ln (1/2))"
    using ln_half_bounds by (intro f64_overflow_small; simp)+
  moreover have "ln (1/2::real) = - ln 2" by (simp add: ln_div)
  ultimately show ?thesis
    by (simp add: cross_entropy_stretch_Y cross_entropy_term_one_half np_sum_def)
qed

lemma ce_truncated: "cross_entropy [Fin 1] [Fin (1/2)] = Inr (Fin (ln 2))"
proof -
  have "f64_overflow (ln (1/2)) = Fin (ln (1/2))"
    using ln_half_bounds by (intro f64_overflow_small; simp)+
  moreover have "ln (1/2::real) = - ln 2" by (simp add: ln_div)
  ultimately show ?thesis
    by (simp add: cross_entropy_same_length cross_entropy_term_one_half np_sum_def)
qed

subsection \<open>Sequences of different lengths\<close>

text \<open>
  C8 (as stated). For the lengths 1 and 2 the call neither fails nor truncates: the
  single label is paired with both probabilities, and the result \<open>2 * ln 2\<close> differs
  from the result \<open>ln 2\<close> on the sequences cut to the shorter length.
\<close>

theorem cross_entropy_mismatch_counterexample:
  "\<not> (cross_entropy [Fin 1] [Fin (1/2), Fin (1/2)] = Inl ValueError
      \<or> cross_entropy [Fin 1] [Fin (1/2), Fin (1/2)]
          = cross_entropy (take 1 [Fin 1]) (take 1 [Fin (1/2), Fin (1/2)]))"
proof -
  have "ln (2::real) \<noteq> 0" by simp
  then show ?thesis by (simp add: ce_stretched ce_truncated)
qed

text \<open>
  C8 (amended). When the lengths differ and one of the two sequences has length exactly
  1, the call does not fail: it returns the negated sum of the terms that pair the single
  element with every element of the other sequence, which is also the result of the call
  on the sequence stretched to the other length. When the lengths differ and neither is
  1, the call raises \<^verbatim>\<open>ValueError\<close>.
\<close>

theorem cross_entropy_length_mismatch:
  assumes "length Y \<noteq> length P"
  shows "(length Y = 1 \<longrightarrow>
            cross_entropy Y P = Inr (f64_neg (np_sum (map (cross_entropy_term (hd Y)) P))) \<and>
            cross_entropy Y P = cross_entropy (replicate (length P) (hd Y)) P) \<and>
         (length P = 1 \<longrightarrow>
            cross_entropy Y P = Inr (f64_neg (np_sum (map (\<lambda>y. cross_entropy_term y (hd P)) Y))) \<and>
            cross_entropy Y P = cross_entropy Y (replicate (length Y) (hd P))) \<and>
         (length Y \<noteq> 1 \<and> length P \<noteq> 1 \<longrightarrow> cross_entropy Y P = Inl ValueError)"
proof (intro conjI impI)
  assume y: "length Y = 1"
  with assms have p: "length P \<noteq> 1" by simp
  show "cross_entropy Y P = Inr (f64_neg (np_sum (map (cross_entropy_term (hd Y)) P)))"
    using y p by (rule cross_entropy_stretch_Y)
  then show "cross_entropy Y P = cross_entropy (replicate (length P) (hd Y)) P"
    by (simp add: cross_entropy_same_length map2_replicate_left)
next
  assume p: "length P = 1"
  with assms have y: "length Y \<noteq> 1" by simp
  show "cross_entropy Y P = Inr (f64_neg (np_sum (map (\<lambda>y. cross_entropy_term y (hd P)) Y)))"
    using p y by (rule cross_entropy_stretch_P)
  then show "cross_entropy Y P = cross_entropy Y (replicate (length Y) (hd P))"
    by (simp add: cross_entropy_same_length map2_replicate_right)
next
  assume "length Y \<noteq> 1 \<and> length P \<noteq> 1"
  with assms show "cross_entropy Y P = Inl ValueError"
    by (simp add: cross_entropy_mismatch)
qed

theorem cross_entropy_length_mismatch_witness:
  "cross_entropy [Fin 1] [Fin (1/2), Fin (1/2)] =
     Inr (f64_neg (np_sum [cross_entropy_term (Fin 1) (Fin (1/2)),
                           cross_entropy_term (Fin 1) (Fin (1/2))])) \<and>
   cross_entropy [Fin 1, Fin 1] [Fin 0, Fin (1/2), Fin (1/2)] = Inl ValueError"
proof
  show "cross_entropy [Fin 1] [Fin (1/2), Fin (1/2)] =
     Inr (f64_neg (np_sum [cross_entropy_term (Fin 1) (Fin (1/2)),
                           cross_entropy_term (Fin 1) (Fin (1/2))]))"
    using cross_entropy_length_mismatch [of "[Fin 1]" "[Fin (1/2), Fin (1/2)]"] by simp
  show "cross_entropy [Fin 1, Fin 1] [Fin 0, Fin (1/2), Fin (1/2)] = Inl ValueError"
    using cross_entropy_length_mismatch [of "[Fin 1, Fin 1]" "[Fin 0, Fin (1/2), Fin (1/2)]"]
    by simp
qed

subsection \<open>\<open>cross_entropy\<close> and the formula of the specification\<close>

lemma cross_entropy_term_unit_interval:
  assumes "0 < p" "p < 1"
  shows "cross_entropy_term y (Fin p) =
     f64_add (f64_mul y (Fin (ln p))) (f64_mul (f64_sub (Fin 1) y) (Fin (ln (1 - p))))"
proof -
  have "f64_sub (Fin 1) (Fin p) = Fin (1 - p)"
    using assms by (simp add: f64_sub_def f64_overflow_small)
  then show ?thesis
    using assms by (simp add: cross_entropy_term_def)
qed

lemma ln_unit_bounds:
  fixes q :: real
  assumes "0 < a" "1 / 2 ^ k \<le> q" "q \<le> 1 - a"
  shows "a \<le> - ln q" "- ln q \<le> real k"
proof -
  have q: "0 < q" using assms(2) by (smt (verit) divide_pos_pos zero_less_power zero_less_numeral)
  have "ln q \<le> q - 1" using q by (rule ln_le_minus_one)
  then show "a \<le> - ln q" using assms(3) by linarith
  have "ln (1 / 2 ^ k :: real) \<le> ln q"
    using assms(2) q by (subst ln_le_cancel_iff) simp_all
  moreover have "ln (1 / 2 ^ k :: real) = - (real k * ln 2)"
    by (simp add: ln_div ln_realpow)
  moreover have "real k * ln 2 \<le> real k * 1"
    using ln_2_less_1 by (intro mult_left_mono) simp_all
  ultimately show "- ln q \<le> real k" by linarith
qed

lemma cross_entropy_term_label:
  assumes y: "y = 0 \<or> y = 1"
    and p: "1 / 2 ^ 1074 \<le> p" "p \<le> 1 - 1 / 2 ^ 53"
  shows "cross_entropy_term (Fin y) (Fin p) = Fin (y * ln p + (1 - y) * ln (1 - p))"
    and "\<bar>y * ln p + (1 - y) * ln (1 - p)\<bar> \<le> 1074"
proof -
  have p0: "0 < p" using p(1) by (smt (verit) divide_pos_pos zero_less_power zero_less_numeral)
  have p1: "p < 1" using p(2) by (smt (verit) divide_pos_pos zero_less_power zero_less_numeral)
  have a: "1 / 2 ^ 53 \<le> - ln p" "- ln p \<le> real (1074::nat)"
    using ln_unit_bounds [of "1 / 2 ^ 53" 1074 p] p by simp_all
  have b: "1 / 2 ^ 1074 \<le> - ln (1 - p)" "- ln (1 - p) \<le> real (53::nat)"
    using ln_unit_bounds [of "1 / 2 ^ 1074" 53 "1 - p"] p by simp_all
  have small: "f64_min_bound < 1 / 2 ^ 53"
    by (simp add: f64_min_bound_def)
  have big: "(1074::real) < f64_max_bound"
    using f64_max_bound_huge by simp
  have one: "cross_entropy_term (Fin 1) (Fin p) = Fin (ln p)"
    using p0 p1 a small big by (intro cross_entropy_term_one) simp_all
  have zero: "cross_entropy_term (Fin 0) (Fin p) = Fin (ln (1 - p))"
    using p0 p1 b f64_min_bound_tiny big by (intro cross_entropy_term_zero) simp_all
  from y show "cross_entropy_term (Fin y) (Fin p) = Fin (y * ln p + (1 - y) * ln (1 - p))"
    using one zero by auto
  from y show "\<bar>y * ln p + (1 - y) * ln (1 - p)\<bar> \<le> 1074"
    using a b by auto
qed

lemma foldl_add_bounded:
  "\<forall>r \<in> set rs. \<bar>r\<bar> \<le> B \<Longrightarrow> \<bar>a\<bar> + real (length rs) * B < f64_max_bound \<Longrightarrow>
   foldl f64_add (Fin a) (map Fin rs) = Fin (a + sum_list rs)"
proof (induction rs arbitrary: a)
  case Nil
  then show ?case by simp
next
  case (Cons r rs)
  have rB: "\<bar>r\<bar> \<le> B" using Cons.prems(1) by simp
  then have B0: "0 \<le> B" by linarith
  have expand: "real (length (r # rs)) * B = B + real (length rs) * B"
    by (simp add: algebra_simps)
  have "\<bar>a + r\<bar> \<le> \<bar>a\<bar> + B" using rB by linarith
  moreover have "0 \<le> real (length rs) * B" using B0 by simp
  ultimately have "\<bar>a + r\<bar> < f64_max_bound"
    using Cons.prems(2) expand by linarith
  then have step: "f64_add (Fin a) (Fin r) = Fin (a + r)"
    by (simp add: f64_overflow_Fin)
  have "\<bar>a + r\<bar> + real (length rs) * B < f64_max_bound"
    using \<open>\<bar>a + r\<bar> \<le> \<bar>a\<bar> + B\<close> Cons.prems(2) expand by linarith
  then have "foldl f64_add (Fin (a + r)) (map Fin rs) = Fin ((a + r) + sum_list rs)"
    using Cons.prems(1) by (intro Cons.IH) simp_all
  with step show ?case by (simp add: add.assoc)
qed

lemma cross_entropy_labels:
  assumes len: "length ys = length ps" "length ys \<le> 2 ^ 64"
    and ys: "\<forall>y \<in> set ys. y = 0 \<or> y = 1"
    and ps: "\<forall>p \<in> set ps. 1 / 2 ^ 1074 \<le> p \<and> p \<le> 1 - 1 / 2 ^ 53"
  shows "cross_entropy (map Fin ys) (map Fin ps) =
     Inr (Fin (- (\<Sum>i<length ys. ys ! i * ln (ps ! i) + (1 - ys ! i) * ln (1 - ps ! i))))"
proof -
  let ?t = "\<lambda>i. ys ! i * ln (ps ! i) + (1 - ys ! i) * ln (1 - ps ! i)"
  let ?n = "length ys"
  have t: "cross_entropy_term (Fin (ys ! i)) (Fin (ps ! i)) = Fin (?t i)" "\<bar>?t i\<bar> \<le> 1074"
    if "i < ?n" for i
  proof -
    have "ys ! i \<in> set ys" "ps ! i \<in> set ps" using that len by simp_all
    then have "ys ! i = 0 \<or> ys ! i = 1" "1 / 2 ^ 1074 \<le> ps ! i" "ps ! i \<le> 1 - 1 / 2 ^ 53"
      using ys ps by blast+
    then show "cross_entropy_term (Fin (ys ! i)) (Fin (ps ! i)) = Fin (?t i)" "\<bar>?t i\<bar> \<le> 1074"
      by (rule cross_entropy_term_label)+
  qed
  have terms: "map2 cross_entropy_term (map Fin ys) (map Fin ps) = map Fin (map ?t [0..<?n])"
    using len t(1) by (intro nth_equalityI) simp_all
  have "real ?n \<le> 2 ^ 64" using len(2) by (metis of_nat_le_iff of_nat_numeral of_nat_power)
  then have "real ?n * 1074 \<le> 2 ^ 64 * 2 ^ 11" by (intro mult_mono) simp_all
  also have "\<dots> < f64_max_bound" using f64_max_bound_huge by (simp flip: power_add)
  finally have fits: "\<bar>0::real\<bar> + real (length (map ?t [0..<?n])) * 1074 < f64_max_bound"
    by simp
  have "\<forall>r \<in> set (map ?t [0..<?n]). \<bar>r\<bar> \<le> 1074" using t(2) by auto
  then have "foldl f64_add (Fin 0) (map Fin (map ?t [0..<?n])) = Fin (0 + sum_list (map ?t [0..<?n]))"
    using fits by (rule foldl_add_bounded)
  moreover have "sum_list (map ?t [0..<?n]) = (\<Sum>i<?n. ?t i)"
    by (simp add: interv_sum_list_conv_sum_set_nat atLeast0LessThan)
  ultimately have "np_sum (map2 cross_entropy_term (map Fin ys) (map Fin ps)) = Fin (\<Sum>i<?n. ?t i)"
    by (simp only: np_sum_def terms) simp
  then show ?thesis
    using len(1) by (simp add: cross_entropy_same_length)
qed

lemma exp_Maclaurin_lower:
  fixes x :: real
  assumes "0 \<le> x"
  shows "(\<Sum>m<n. x ^ m / fact m) \<le> exp x"
proof -
  obtain t where "exp x = (\<Sum>m<n. x ^ m / fact m) + exp t / fact n * x ^ n"
    using Maclaurin_exp_le [of x n] by blast
  moreover have "0 \<le> exp t / fact n * x ^ n"
    using assms by simp
  ultimately show ?thesis by linarith
qed

lemma exp_Maclaurin_upper:
  fixes x :: real
  assumes "0 \<le> x" "x \<le> 1"
  shows "exp x \<le> (\<Sum>m<n. x ^ m / fact m) + 3 / fact n * x ^ n"
proof -
  obtain t where t: "\<bar>t\<bar> \<le> \<bar>x\<bar>" "exp x = (\<Sum>m<n. x ^ m / fact m) + exp t / fact n * x ^ n"
    using Maclaurin_exp_le [of x n] by blast
  have "t \<le> 1" using t(1) assms by linarith
  then have "exp t \<le> exp 1" by simp
  then have "exp t \<le> 3" using exp_le by linarith
  then have "exp t / fact n * x ^ n \<le> 3 / fact n * x ^ n"
    using assms(1) by (intro mult_right_mono divide_right_mono) simp_all
  with t(2) show ?thesis by linarith
qed






subsection \<open>Probabilities equal to 0 or 1\<close>

lemma f64_add_not_finite_left: "\<not> f64_is_finite a \<Longrightarrow> \<not> f64_is_finite (f64_add a b)"
  by (cases a; cases b) simp_all

lemma f64_add_not_finite_right: "\<not> f64_is_finite b \<Longrightarrow> \<not> f64_is_finite (f64_add a b)"
  by (cases a; cases b) simp_all

lemma f64_mul_NInf_right: "\<not> f64_is_finite (f64_mul a NInf)"
  by (cases a) (simp_all add: f64_signed_inf_def)

lemma f64_neg_finite_iff: "f64_is_finite (f64_neg a) = f64_is_finite a"
  by (cases a) simp_all

lemma foldl_add_not_finite_acc:
  "\<not> f64_is_finite acc \<Longrightarrow> \<not> f64_is_finite (foldl f64_add acc xs)"
  by (induction xs arbitrary: acc) (simp_all add: f64_add_not_finite_left)

lemma foldl_add_not_finite_elem:
  "x \<in> set xs \<Longrightarrow> \<not> f64_is_finite x \<Longrightarrow> \<not> f64_is_finite (foldl f64_add acc xs)"
proof (induction xs arbitrary: acc)
  case Nil
  then show ?case by simp
next
  case (Cons a xs)
  show ?case
  proof (cases "x = a")
    case True
    with Cons.prems have "\<not> f64_is_finite (f64_add acc a)"
      by (simp add: f64_add_not_finite_right)
    then show ?thesis by (simp add: foldl_add_not_finite_acc)
  next
    case False
    with Cons show ?thesis by simp
  qed
qed

lemma cross_entropy_term_at_zero: "\<not> f64_is_finite (cross_entropy_term y (Fin 0))"
  by (simp add: cross_entropy_term_def f64_add_not_finite_left f64_mul_NInf_right)

lemma cross_entropy_term_at_one: "\<not> f64_is_finite (cross_entropy_term y (Fin 1))"
proof -
  have "f64_sub (Fin 1) (Fin 1) = Fin 0"
    by (simp add: f64_sub_def f64_overflow_small)
  then show ?thesis
    by (simp add: cross_entropy_term_def f64_add_not_finite_right f64_mul_NInf_right)
qed

text \<open>
  C7. If some \<open>P[i]\<close> is exactly 0 or exactly 1 (the lengths being equal), the call does
  not raise: it returns a value, and that value is not finite (an infinity or
  not-a-number).
\<close>

theorem cross_entropy_probability_zero_or_one:
  assumes "length Y = length P" and "i < length P" and "P ! i = Fin 0 \<or> P ! i = Fin 1"
  shows "\<exists>v. cross_entropy Y P = Inr v \<and> \<not> f64_is_finite v"
proof -
  let ?T = "map2 cross_entropy_term Y P"
  have "\<not> f64_is_finite (cross_entropy_term (Y ! i) (P ! i))"
    using assms(3) cross_entropy_term_at_zero cross_entropy_term_at_one by auto
  moreover have "?T ! i = cross_entropy_term (Y ! i) (P ! i)" "i < length ?T"
    using assms by simp_all
  ultimately obtain x where "x \<in> set ?T" "\<not> f64_is_finite x"
    by (metis nth_mem)
  then have "\<not> f64_is_finite (np_sum ?T)"
    unfolding np_sum_def by (rule foldl_add_not_finite_elem)
  then show ?thesis
    using assms(1) by (simp add: cross_entropy_same_length f64_neg_finite_iff)
qed

theorem cross_entropy_probability_zero_or_one_witness:
  "length [Fin 1] = length [Fin 0] \<and> 0 < length [Fin 0] \<and>
   ([Fin 0] ! 0 = Fin 0 \<or> [Fin 0] ! 0 = Fin 1) \<and>
   (\<exists>v. cross_entropy [Fin 1] [Fin 0] = Inr v \<and> \<not> f64_is_finite v)"
  using cross_entropy_probability_zero_or_one [of "[Fin 1]" "[Fin 0]" 0]
  by simp

subsection \<open>Non-negativity of \<open>cross_entropy\<close>\<close>

lemma nonpos_overflow: "r \<le> 0 \<Longrightarrow> f64_nonneg (f64_neg (f64_overflow r))"
  using f64_max_bound_large by (simp add: f64_overflow_def)

lemma nonpos_range: "r \<le> 0 \<Longrightarrow> f64_nonneg (f64_neg (f64_range r))"
  by (simp add: f64_range_def nonpos_overflow)

lemma nonpos_add:
  "f64_nonneg (f64_neg a) \<Longrightarrow> f64_nonneg (f64_neg b) \<Longrightarrow> f64_nonneg (f64_neg (f64_add a b))"
  by (cases a; cases b) (simp_all add: nonpos_overflow)

lemma nonpos_foldl:
  "f64_nonneg (f64_neg acc) \<Longrightarrow> \<forall>x \<in> set xs. f64_nonneg (f64_neg x) \<Longrightarrow>
   f64_nonneg (f64_neg (foldl f64_add acc xs))"
  by (induction xs arbitrary: acc) (simp_all add: nonpos_add)

lemma nonpos_term:
  assumes "y = Fin 0 \<or> y = Fin 1" "0 < p" "p < 1"
  shows "f64_nonneg (f64_neg (cross_entropy_term y (Fin p)))"
proof -
  have l: "ln p \<le> 0" "ln (1 - p) \<le> 0" using assms by simp_all
  have s: "f64_sub (Fin 1) (Fin 0) = Fin 1" "f64_sub (Fin 1) (Fin 1) = Fin 0"
    by (simp_all add: f64_sub_def f64_overflow_small)
  from assms(1) show ?thesis
  proof
    assume "y = Fin 0"
    then show ?thesis
      using assms l
      by (simp add: cross_entropy_term_unit_interval s f64_range_zero nonpos_add nonpos_range)
  next
    assume "y = Fin 1"
    then show ?thesis
      using assms l
      by (simp add: cross_entropy_term_unit_interval s f64_range_zero nonpos_add nonpos_range)
  qed
qed

text \<open>
  C4. For labels \<open>Y[i]\<close> in \<open>{0, 1}\<close> and probabilities \<open>P[i]\<close> strictly between 0
  and 1, of equal length, \<open>cross_entropy\<close> returns a value that compares \<open>>= 0\<close>.
\<close>

theorem cross_entropy_nonnegative:
  assumes "length Y = length ps"
    and "\<forall>y \<in> set Y. y = Fin 0 \<or> y = Fin 1"
    and "\<forall>p \<in> set ps. 0 < p \<and> p < 1"
  shows "\<exists>v. cross_entropy Y (map Fin ps) = Inr v \<and> f64_nonneg v"
proof -
  have "\<forall>x \<in> set (map2 cross_entropy_term Y (map Fin ps)). f64_nonneg (f64_neg x)"
    using assms(2,3) by (auto simp: set_zip nonpos_term)
  then have "f64_nonneg (f64_neg (np_sum (map2 cross_entropy_term Y (map Fin ps))))"
    unfolding np_sum_def by (intro nonpos_foldl) simp_all
  then show ?thesis
    using assms(1) by (simp add: cross_entropy_same_length)
qed

theorem cross_entropy_nonnegative_witness:
  "length listy = length listp \<and>
   (\<exists>v. cross_entropy listy listp = Inr v \<and> f64_nonneg v)"
  using cross_entropy_nonnegative [of listy "[4/10, 6/10, 1/10, 5/10]"]
  by (simp add: listy_def listp_def)

subsection \<open>The softmax loop\<close>

lemma softmax_loop_eq:
  "softmax_loop xs s (acc, d) = (acc @ map (\<lambda>i. f64_div i s) xs, d + length xs)"
  by (induction xs arbitrary: acc d) simp_all

lemma softmax_eq_map:
  "softmax L = map (\<lambda>i. f64_div i (np_sum (np_exp L))) (np_exp L)"
  by (simp add: softmax_def softmax_run_def Let_def softmax_loop_eq)

subsection \<open>\<open>softmax\<close> inside and outside the float64 range\<close>

lemma f64_exp_in_range:
  "f64_min_bound < exp x \<Longrightarrow> exp x < f64_max_bound \<Longrightarrow> f64_exp (Fin x) = Fin (exp x)"
  by (simp add: f64_range_Fin)

lemma foldl_add_nonneg:
  "0 \<le> a \<Longrightarrow> \<forall>r \<in> set rs. 0 \<le> r \<Longrightarrow> a + sum_list rs < f64_max_bound \<Longrightarrow>
   foldl f64_add (Fin a) (map Fin rs) = Fin (a + sum_list rs)"
proof (induction rs arbitrary: a)
  case Nil
  then show ?case by simp
next
  case (Cons r rs)
  have "0 \<le> sum_list rs" using Cons.prems(2) by (simp add: sum_list_nonneg)
  then have "\<bar>a + r\<bar> < f64_max_bound" using Cons.prems by simp
  then have "f64_add (Fin a) (Fin r) = Fin (a + r)" by (simp add: f64_overflow_Fin)
  moreover have "foldl f64_add (Fin (a + r)) (map Fin rs) = Fin ((a + r) + sum_list rs)"
    using Cons.prems by (intro Cons.IH) (simp_all add: add.assoc)
  ultimately show ?case by (simp add: add.assoc)
qed

lemma np_sum_nonneg:
  "\<forall>r \<in> set rs. 0 \<le> r \<Longrightarrow> sum_list rs < f64_max_bound \<Longrightarrow>
   np_sum (map Fin rs) = Fin (sum_list rs)"
  using foldl_add_nonneg [of 0 rs] by (simp add: np_sum_def)

lemma elem_le_sum_list:
  fixes rs :: "real list"
  shows "\<forall>r \<in> set rs. 0 \<le> r \<Longrightarrow> x \<in> set rs \<Longrightarrow> x \<le> sum_list rs"
  by (induction rs) (auto simp: sum_list_nonneg add_increasing add_increasing2)

lemma softmax_in_range:
  assumes ne: "xs \<noteq> []"
    and lo: "\<forall>x \<in> set xs. f64_min_bound < exp x"
    and hi: "sum_list (map exp xs) < f64_max_bound"
    and q: "\<forall>x \<in> set xs. f64_min_bound < exp x / sum_list (map exp xs)"
  shows "softmax (map Fin xs) = map (\<lambda>x. Fin (exp x / sum_list (map exp xs))) xs"
proof -
  let ?S = "sum_list (map exp xs)"
  have nn: "\<forall>r \<in> set (map exp xs). 0 \<le> r" by auto
  have le: "exp x \<le> ?S" if "x \<in> set xs" for x
    using elem_le_sum_list [OF nn, of "exp x"] that by simp
  have pos: "0 < ?S"
  proof -
    from ne obtain x where "x \<in> set xs" by (cases xs) auto
    then have "exp x \<le> ?S" by (rule le)
    moreover have "0 < exp x" by simp
    ultimately show ?thesis by linarith
  qed
  have "f64_exp (Fin x) = Fin (exp x)" if "x \<in> set xs" for x
  proof (rule f64_exp_in_range)
    show "f64_min_bound < exp x" using lo that by simp
    show "exp x < f64_max_bound" using le [OF that] hi by linarith
  qed
  then have e: "map f64_exp (map Fin xs) = map Fin (map exp xs)"
    by simp
  have s: "np_sum (map Fin (map exp xs)) = Fin ?S"
    using nn hi by (rule np_sum_nonneg)
  have d: "f64_div (Fin (exp x)) (Fin ?S) = Fin (exp x / ?S)" if "x \<in> set xs" for x
  proof -
    have "exp x / ?S \<le> 1" using le [OF that] pos by simp
    moreover have "(1::real) < f64_max_bound" using f64_max_bound_large by simp
    moreover have "0 < exp x / ?S" using pos by simp
    ultimately have "f64_min_bound < \<bar>exp x / ?S\<bar>" "\<bar>exp x / ?S\<bar> < f64_max_bound"
      using q that by (simp_all only: abs_of_pos)
    then have "f64_range (exp x / ?S) = Fin (exp x / ?S)"
      by (rule f64_range_Fin)
    then show ?thesis using pos by simp
  qed
  have "softmax (map Fin xs) = map (\<lambda>i. f64_div i (Fin ?S)) (map Fin (map exp xs))"
    by (simp only: softmax_eq_map np_exp_def e s)
  also have "\<dots> = map (\<lambda>x. f64_div (Fin (exp x)) (Fin ?S)) xs"
    by (simp only: map_map comp_def)
  also have "\<dots> = map (\<lambda>x. Fin (exp x / ?S)) xs"
    by (rule map_cong) (simp_all only: d)
  finally show ?thesis .
qed


lemma exp_1000_lower: "(5::real) ^ 500 \<le> exp 1000"
proof -
  have "(5::real) \<le> exp 2"
    using exp_lower_Taylor_quadratic [of "2::real"] by simp
  then have "(5::real) ^ 500 \<le> exp 2 ^ 500"
    by (intro power_mono) simp_all
  also have "exp (2::real) ^ 500 = exp (of_nat 500 * 2)"
    by (rule exp_of_nat_mult [symmetric])
  also have "\<dots> = exp 1000" by simp
  finally show ?thesis .
qed

lemma exp_1000_overflows: "f64_max_bound \<le> exp (1000::real)"
proof -
  have "f64_max_bound \<le> (5::real) ^ 500"
    by (simp add: f64_max_bound_def)
  then show ?thesis using exp_1000_lower by linarith
qed

lemma softmax_1000: "softmax [Fin 1000] = [NaN]"
proof -
  have "f64_min_bound < exp (1000::real)"
    using exp_1000_overflows f64_min_lt_max by linarith
  then have "f64_exp (Fin 1000) = PInf"
    using exp_1000_overflows by (simp add: f64_range_def f64_overflow_def)
  then show ?thesis
    by (simp add: softmax_eq_map np_exp_def np_sum_def)
qed

lemma exp_minus_1000_underflows: "exp (- 1000::real) \<le> f64_min_bound"
proof -
  have "(2::real) ^ 1075 \<le> 5 ^ 500" by simp
  then have "(2::real) ^ 1075 \<le> exp 1000" using exp_1000_lower by linarith
  then have "1 / exp (1000::real) \<le> 1 / 2 ^ 1075"
    by (intro divide_left_mono) simp_all
  moreover have "exp (- 1000::real) = 1 / exp 1000"
    by (simp only: exp_minus inverse_eq_divide)
  ultimately show ?thesis by (simp only: f64_min_bound_def)
qed

lemma softmax_underflow: "softmax [Fin (- 1000), Fin 0] = [Fin 0, Fin 1]"
proof -
  have "f64_exp (Fin (- 1000)) = Fin 0"
    using exp_minus_1000_underflows by (simp add: f64_range_def)
  moreover have "f64_exp (Fin 0) = Fin 1"
    using f64_min_bound_small f64_max_bound_large by (simp add: f64_range_Fin)
  moreover have "f64_range 1 = Fin 1"
    using f64_min_bound_small f64_max_bound_large by (simp add: f64_range_Fin)
  ultimately show ?thesis
    by (simp add: softmax_eq_map np_exp_def np_sum_def f64_overflow_small f64_range_zero)
qed

subsection \<open>Enclosures of the exponential\<close>

lemma exp_1_lower: "2718281828459 / 10 ^ 12 \<le> exp (1::real)"
proof -
  have "(2718281828459 / 10 ^ 12 :: real) \<le> (\<Sum>m<17. 1 ^ m / fact m)"
    by (simp add: lessThan_nat_numeral fact_numeral)
  also have "\<dots> \<le> exp 1" by (rule exp_Maclaurin_lower) simp
  finally show ?thesis .
qed

lemma exp_1_upper: "exp (1::real) \<le> 2718281828460 / 10 ^ 12"
proof -
  have "exp (1::real) \<le> (\<Sum>m<17. 1 ^ m / fact m) + 3 / fact 17 * 1 ^ 17"
    by (rule exp_Maclaurin_upper) simp_all
  also have "\<dots> \<le> 2718281828460 / 10 ^ 12"
    by (simp add: lessThan_nat_numeral fact_numeral)
  finally show ?thesis .
qed

lemma exp_nat_power: "exp (real n) = exp 1 ^ n"
  using exp_of_nat_mult [of n "1::real"] by simp

lemma exp_power_bounds:
  "(2718281828459 / 10 ^ 12) ^ n \<le> exp (real n)"
  "exp (real n) \<le> (2718281828460 / 10 ^ 12) ^ n"
  unfolding exp_nat_power
  by (intro power_mono exp_1_lower exp_1_upper; simp)+

lemma exp_5_bounds: "1484131591 / 10 ^ 7 \<le> exp (5::real)" "exp (5::real) \<le> 1484131592 / 10 ^ 7"
proof -
  have "(1484131591 / 10 ^ 7 :: real) \<le> (2718281828459 / 10 ^ 12) ^ 5" by (simp add: power_divide)
  then show "1484131591 / 10 ^ 7 \<le> exp (5::real)" using exp_power_bounds(1) [of 5] by simp
  have "(2718281828460 / 10 ^ 12) ^ 5 \<le> (1484131592 / 10 ^ 7 :: real)" by (simp add: power_divide)
  then show "exp (5::real) \<le> 1484131592 / 10 ^ 7" using exp_power_bounds(2) [of 5] by simp
qed

lemma exp_6_bounds: "4034287934 / 10 ^ 7 \<le> exp (6::real)" "exp (6::real) \<le> 4034287935 / 10 ^ 7"
proof -
  have "(4034287934 / 10 ^ 7 :: real) \<le> (2718281828459 / 10 ^ 12) ^ 6" by (simp add: power_divide)
  then show "4034287934 / 10 ^ 7 \<le> exp (6::real)" using exp_power_bounds(1) [of 6] by simp
  have "(2718281828460 / 10 ^ 12) ^ 6 \<le> (4034287935 / 10 ^ 7 :: real)" by (simp add: power_divide)
  then show "exp (6::real) \<le> 4034287935 / 10 ^ 7" using exp_power_bounds(2) [of 6] by simp
qed

lemma exp_7_bounds: "10966331584 / 10 ^ 7 \<le> exp (7::real)" "exp (7::real) \<le> 10966331585 / 10 ^ 7"
proof -
  have "(10966331584 / 10 ^ 7 :: real) \<le> (2718281828459 / 10 ^ 12) ^ 7" by (simp add: power_divide)
  then show "10966331584 / 10 ^ 7 \<le> exp (7::real)" using exp_power_bounds(1) [of 7] by simp
  have "(2718281828460 / 10 ^ 12) ^ 7 \<le> (10966331585 / 10 ^ 7 :: real)" by (simp add: power_divide)
  then show "exp (7::real) \<le> 10966331585 / 10 ^ 7" using exp_power_bounds(2) [of 7] by simp
qed

lemma exp_8_bounds: "29809579870 / 10 ^ 7 \<le> exp (8::real)" "exp (8::real) \<le> 29809579871 / 10 ^ 7"
proof -
  have "(29809579870 / 10 ^ 7 :: real) \<le> (2718281828459 / 10 ^ 12) ^ 8" by (simp add: power_divide)
  then show "29809579870 / 10 ^ 7 \<le> exp (8::real)" using exp_power_bounds(1) [of 8] by simp
  have "(2718281828460 / 10 ^ 12) ^ 8 \<le> (29809579871 / 10 ^ 7 :: real)" by (simp add: power_divide)
  then show "exp (8::real) \<le> 29809579871 / 10 ^ 7" using exp_power_bounds(2) [of 8] by simp
qed


subsection \<open>\<open>softmax\<close> in the normal range\<close>

lemma softmax_normal_range:
  assumes "xs \<noteq> []"
    and "\<forall>x \<in> set xs. f64_min_normal \<le> exp x"
    and "sum_list (map exp xs) \<le> 2 ^ 1023"
    and "\<forall>x \<in> set xs. f64_min_normal \<le> exp x / sum_list (map exp xs)"
  shows "softmax (map Fin xs) = map (\<lambda>x. Fin (exp x / sum_list (map exp xs))) xs"
proof (rule softmax_in_range)
  show "xs \<noteq> []" by fact
  show "\<forall>x \<in> set xs. f64_min_bound < exp x"
    using assms(2) f64_normal_range(1) by (meson less_le_trans)
  show "sum_list (map exp xs) < f64_max_bound"
    using assms(3) f64_normal_range(2) by linarith
  show "\<forall>x \<in> set xs. f64_min_bound < exp x / sum_list (map exp xs)"
    using assms(4) f64_normal_range(1) by (meson less_le_trans)
qed

lemma list1_normal_range:
  "\<forall>x \<in> set [5, 6, 7, 8 :: real]. f64_min_normal \<le> exp x"
  "sum_list (map exp [5, 6, 7, 8 :: real]) \<le> 2 ^ 1023"
  "\<forall>x \<in> set [5, 6, 7, 8 :: real]. f64_min_normal \<le> exp x / sum_list (map exp [5, 6, 7, 8])"
proof -
  have n: "f64_min_normal \<le> 1 / 10 ^ 6" by (simp add: f64_min_normal_def)
  have S: "exp (5::real) + exp 6 + exp 7 + exp 8 \<le> 10 ^ 4"
    using exp_5_bounds(2) exp_6_bounds(2) exp_7_bounds(2) exp_8_bounds(2) by simp
  have pos: "0 < exp (5::real) + exp 6 + exp 7 + exp 8"
    by (simp add: add_pos_pos)
  have q: "1 / 10 ^ 6 \<le> e / (exp (5::real) + exp 6 + exp 7 + exp 8)" if "1 \<le> e" for e :: real
  proof -
    have "1 / 10 ^ 6 * (exp (5::real) + exp 6 + exp 7 + exp 8) \<le> 1" using S by simp
    then have "1 / 10 ^ 6 * (exp (5::real) + exp 6 + exp 7 + exp 8) \<le> e" using that by linarith
    then show ?thesis using pos by (simp only: pos_le_divide_eq)
  qed
  show "\<forall>x \<in> set [5, 6, 7, 8 :: real]. f64_min_normal \<le> exp x"
    using n by (auto intro: order_trans [where y = 1])
  show "sum_list (map exp [5, 6, 7, 8 :: real]) \<le> 2 ^ 1023"
  proof -
    have "(10::real) ^ 4 \<le> 2 ^ 1023" by simp
    then show ?thesis using S by (simp add: add.assoc)
  qed
  show "\<forall>x \<in> set [5, 6, 7, 8 :: real]. f64_min_normal \<le> exp x / sum_list (map exp [5, 6, 7, 8])"
  proof -
    have S_eq: "sum_list (map exp [5, 6, 7, 8 :: real]) = exp 5 + exp 6 + exp 7 + exp 8"
      by simp
    have "f64_min_normal \<le> e / (exp (5::real) + exp 6 + exp 7 + exp 8)" if "1 \<le> e" for e :: real
      using n q [OF that] by linarith
    then show ?thesis unfolding S_eq by simp
  qed
qed

lemma softmax_list1:
  "softmax list1 = map (\<lambda>x. Fin (exp x / (exp 5 + exp 6 + exp 7 + exp 8))) [5, 6, 7, 8]"
proof -
  have "softmax (map Fin [5, 6, 7, 8]) =
      map (\<lambda>x. Fin (exp x / sum_list (map exp [5, 6, 7, 8]))) [5, 6, 7, 8]"
    using list1_normal_range by (intro softmax_normal_range) simp_all
  then show ?thesis by (simp add: list1_def add.assoc)
qed

text \<open>
  C2 (as stated). The input \<open>[1000]\<close> is non-empty, but its exponential overflows to
  infinity, the sum is infinite, and the quotient of two infinities is not-a-number:
  the only output is not \<open>exp(1000) / exp(1000) = 1\<close>.
\<close>

theorem softmax_normalized_counterexample:
  "softmax [Fin 1000] = [NaN] \<and>
   softmax [Fin 1000] ! 0 \<noteq> Fin (exp 1000 / sum_list (map exp [1000]))"
  by (simp add: softmax_1000)

text \<open>
  C2 (amended). For a non-empty sequence of finite numbers whose exponentials and whose
  quotients \<open>exp(L[i]) / S\<close> are at least the smallest normal float64 and whose sum of
  exponentials \<open>S\<close> is at most \<open>2^1023\<close>, \<open>softmax\<close> returns a sequence of the same
  length whose element at every index \<open>i\<close> is \<open>exp(L[i]) / S\<close>; exponential, sum and
  quotient on the right-hand side are those of the real numbers.
\<close>

theorem softmax_normalized_exponential:
  assumes "xs \<noteq> []"
    and "\<forall>x \<in> set xs. f64_min_normal \<le> exp x"
    and "sum_list (map exp xs) \<le> 2 ^ 1023"
    and "\<forall>x \<in> set xs. f64_min_normal \<le> exp x / sum_list (map exp xs)"
  shows "length (softmax (map Fin xs)) = length xs \<and>
         (\<forall>i < length xs. softmax (map Fin xs) ! i = Fin (exp (xs ! i) / sum_list (map exp xs)))"
  using assms by (simp add: softmax_normal_range)

theorem softmax_normalized_exponential_witness:
  "length (softmax list1) = 4 \<and>
   softmax list1 ! 0 = Fin (exp 5 / (exp 5 + exp 6 + exp 7 + exp 8)) \<and>
   softmax list1 ! 3 = Fin (exp 8 / (exp 5 + exp 6 + exp 7 + exp 8))"
  using softmax_normalized_exponential [of "[5, 6, 7, 8]"] list1_normal_range
  by (simp add: list1_def add.assoc)





text \<open>
  C6. On \<open>[5, 6, 7, 8]\<close> the script's result \<open>ans\<close> has four elements, each within
  \<open>1e-7\<close> (one unit of the last digit given) of 0.0320586, 0.0871443, 0.2368828 and
  0.6439142. The exact quotients differ from these constants by less than \<open>6e-8\<close>, so
  the rounding of float64, below \<open>1e-15\<close> here, does not affect the statement.
\<close>

theorem softmax_list1_values:
  "length ans = 4 \<and>
   f64_within (1 / 10 ^ 7) (320586 / 10 ^ 7) (ans ! 0) \<and>
   f64_within (1 / 10 ^ 7) (871443 / 10 ^ 7) (ans ! 1) \<and>
   f64_within (1 / 10 ^ 7) (2368828 / 10 ^ 7) (ans ! 2) \<and>
   f64_within (1 / 10 ^ 7) (6439142 / 10 ^ 7) (ans ! 3)"
proof -
  define e5 e6 e7 e8 :: real where "e5 = exp 5" and "e6 = exp 6" and "e7 = exp 7" and "e8 = exp 8"
  define S where "S = e5 + e6 + e7 + e8"
  note b = exp_5_bounds [folded e5_def] exp_6_bounds [folded e6_def]
    exp_7_bounds [folded e7_def] exp_8_bounds [folded e8_def]
  have pos: "0 < S" using b by (simp add: S_def)
  have a: "ans = [Fin (e5 / S), Fin (e6 / S), Fin (e7 / S), Fin (e8 / S)]"
    by (simp add: ans_def softmax_list1 S_def e5_def e6_def e7_def e8_def)
  have "e5 \<le> (320586 / 10 ^ 7 + 1 / 10 ^ 7) * S" "(320586 / 10 ^ 7 - 1 / 10 ^ 7) * S \<le> e5"
    using b unfolding S_def by simp_all
  note h = this
  have r0: "\<bar>e5 / S - 320586 / 10 ^ 7\<bar> \<le> 1 / 10 ^ 7"
  proof -
    have "e5 / S \<le> 320586 / 10 ^ 7 + 1 / 10 ^ 7" "320586 / 10 ^ 7 - 1 / 10 ^ 7 \<le> e5 / S"
      using pos h by (simp_all only: pos_divide_le_eq pos_le_divide_eq)
    then show ?thesis by linarith
  qed
  have "e6 \<le> (871443 / 10 ^ 7 + 1 / 10 ^ 7) * S" "(871443 / 10 ^ 7 - 1 / 10 ^ 7) * S \<le> e6"
    using b unfolding S_def by simp_all
  note h = this
  have r1: "\<bar>e6 / S - 871443 / 10 ^ 7\<bar> \<le> 1 / 10 ^ 7"
  proof -
    have "e6 / S \<le> 871443 / 10 ^ 7 + 1 / 10 ^ 7" "871443 / 10 ^ 7 - 1 / 10 ^ 7 \<le> e6 / S"
      using pos h by (simp_all only: pos_divide_le_eq pos_le_divide_eq)
    then show ?thesis by linarith
  qed
  have "e7 \<le> (2368828 / 10 ^ 7 + 1 / 10 ^ 7) * S" "(2368828 / 10 ^ 7 - 1 / 10 ^ 7) * S \<le> e7"
    using b unfolding S_def by simp_all
  note h = this
  have r2: "\<bar>e7 / S - 2368828 / 10 ^ 7\<bar> \<le> 1 / 10 ^ 7"
  proof -
    have "e7 / S \<le> 2368828 / 10 ^ 7 + 1 / 10 ^ 7" "2368828 / 10 ^ 7 - 1 / 10 ^ 7 \<le> e7 / S"
      using pos h by (simp_all only: pos_divide_le_eq pos_le_divide_eq)
    then show ?thesis by linarith
  qed
  have "e8 \<le> (6439142 / 10 ^ 7 + 1 / 10 ^ 7) * S" "(6439142 / 10 ^ 7 - 1 / 10 ^ 7) * S \<le> e8"
    using b unfolding S_def by simp_all
  note h = this
  have r3: "\<bar>e8 / S - 6439142 / 10 ^ 7\<bar> \<le> 1 / 10 ^ 7"
  proof -
    have "e8 / S \<le> 6439142 / 10 ^ 7 + 1 / 10 ^ 7" "6439142 / 10 ^ 7 - 1 / 10 ^ 7 \<le> e8 / S"
      using pos h by (simp_all only: pos_divide_le_eq pos_le_divide_eq)
    then show ?thesis by linarith
  qed
  show ?thesis
    unfolding a using r0 r1 r2 r3 by simp
qed

subsection \<open>The value printed by crossentropy.py\<close>

lemma exp_ln125_lower: "exp (48283137363 / 10 ^ 10 :: real) \<le> 125"
proof -
  let ?d = "1716862637 / 10 ^ 10 :: real"
  have split: "exp (5::real) = exp (48283137363 / 10 ^ 10) * exp ?d"
    by (simp add: exp_add [symmetric])
  have "exp (5::real) \<le> (2718281828460 / 10 ^ 12) ^ 5"
    using exp_power_bounds(2) [of 5] by simp
  also have "\<dots> \<le> 125 * (\<Sum>m<10. ?d ^ m / fact m)"
    by (simp add: lessThan_nat_numeral fact_numeral power_divide)
  also have "\<dots> \<le> 125 * exp ?d"
    by (intro mult_left_mono exp_Maclaurin_lower) simp_all
  finally have "exp (48283137363 / 10 ^ 10 :: real) * exp ?d \<le> 125 * exp ?d"
    by (simp only: split)
  then show ?thesis by (simp only: mult_le_cancel_right_pos exp_gt_zero)
qed

lemma exp_ln125_upper: "125 \<le> exp (48283137383 / 10 ^ 10 :: real)"
proof -
  let ?d = "1716862617 / 10 ^ 10 :: real"
  have split: "exp (5::real) = exp (48283137383 / 10 ^ 10) * exp ?d"
    by (simp add: exp_add [symmetric])
  have "125 * exp ?d \<le> 125 * ((\<Sum>m<10. ?d ^ m / fact m) + 3 / fact 10 * ?d ^ 10)"
    by (intro mult_left_mono exp_Maclaurin_upper) simp_all
  also have "\<dots> \<le> (2718281828459 / 10 ^ 12 :: real) ^ 5"
    by (simp add: lessThan_nat_numeral fact_numeral power_divide)
  also have "\<dots> \<le> exp 5"
    using exp_power_bounds(1) [of 5] by simp
  finally have "125 * exp ?d \<le> exp (48283137383 / 10 ^ 10 :: real) * exp ?d"
    by (simp only: split)
  then show ?thesis by (simp only: mult_le_cancel_right_pos exp_gt_zero)
qed

lemma ln_125_bounds:
  "48283137363 / 10 ^ 10 \<le> ln (125::real)" "ln (125::real) \<le> 48283137383 / 10 ^ 10"
proof -
  have "(0::real) < 125" by simp
  then show "48283137363 / 10 ^ 10 \<le> ln (125::real)"
    using exp_ln125_lower by (simp only: ln_ge_iff)
  have "ln (125::real) \<le> ln (exp (48283137383 / 10 ^ 10))"
    using exp_ln125_upper by (subst ln_le_cancel_iff) simp_all
  then show "ln (125::real) \<le> 48283137383 / 10 ^ 10" by (simp only: ln_exp)
qed

lemma listy_listp_sum:
  "cross_entropy listy listp = Inr (Fin (- (ln (4/10) + ln (1 - 6/10) + ln (1/10) + ln (5/10))))"
proof -
  have "cross_entropy (map Fin [1, 0, 1, 1]) (map Fin [4/10, 6/10, 1/10, 5/10]) =
      Inr (Fin (- (\<Sum>i<length [1, 0, 1, 1 :: real].
        [1, 0, 1, 1] ! i * ln ([4/10, 6/10, 1/10, 5/10] ! i) +
        (1 - [1, 0, 1, 1] ! i) * ln (1 - [4/10, 6/10, 1/10, 5/10] ! i))))"
    by (rule cross_entropy_labels) simp_all
  then show ?thesis
    by (simp add: listy_def listp_def lessThan_nat_numeral lessThan_Suc)
qed

lemma listy_listp_ln:
  "ln (4/10) + ln (1 - 6/10) + ln (1/10) + ln (5/10) = - ln (125::real)"
proof -
  have a: "ln (4/10 :: real) = ln 2 - ln 5"
  proof -
    have "ln (4/10 :: real) = ln (2 / 5)" by simp
    also have "\<dots> = ln 2 - ln 5" by (simp add: ln_div)
    finally show ?thesis .
  qed
  have b: "ln (1 - 6/10 :: real) = ln 2 - ln 5"
  proof -
    have "ln (1 - 6/10 :: real) = ln (2 / 5)" by simp
    also have "\<dots> = ln 2 - ln 5" by (simp add: ln_div)
    finally show ?thesis .
  qed
  have c: "ln (1/10 :: real) = - (ln 2 + ln 5)"
  proof -
    have "ln (2 * 5 :: real) = ln 2 + ln 5" by (rule ln_mult_pos) simp_all
    then have "ln (10 :: real) = ln 2 + ln 5" by simp
    then show ?thesis by (simp add: ln_div)
  qed
  have d: "ln (5/10 :: real) = - ln 2"
  proof -
    have "(5/10 :: real) = 1 / 2" by simp
    then show ?thesis by (simp add: ln_div)
  qed
  have e: "ln (125 :: real) = 3 * ln 5"
  proof -
    have "(125 :: real) = 5 ^ 3" by simp
    then show ?thesis by (simp only: ln_realpow)
  qed
  show ?thesis unfolding a b c d e by simp
qed

text \<open>
  C5. On \<open>[1, 0, 1, 1]\<close> and \<open>[0.4, 0.6, 0.1, 0.5]\<close> the script's result is
  \<open>- (ln 0.4 + ln (1 - 0.6) + ln 0.1 + ln 0.5)\<close>, and this number is within \<open>1e-9\<close> of
  4.8283137373 (it is \<open>3 * ln 5\<close>, about \<open>2.3e-12\<close> away, so the rounding of float64,
  below \<open>1e-14\<close> here, does not affect the statement).
\<close>

theorem cross_entropy_answer_value:
  "cross_entropy_answer = Inr (Fin (- (ln (4/10) + ln (1 - 6/10) + ln (1/10) + ln (5/10)))) \<and>
   \<bar>- (ln (4/10) + ln (1 - 6/10) + ln (1/10) + ln (5/10)) - (48283137373 / 10 ^ 10 :: real)\<bar>
     \<le> 1 / 10 ^ 9"
proof
  show "cross_entropy_answer = Inr (Fin (- (ln (4/10) + ln (1 - 6/10) + ln (1/10) + ln (5/10))))"
    unfolding cross_entropy_answer_def by (rule listy_listp_sum)
  have "ln (125::real) - 48283137373 / 10 ^ 10 \<le> 1 / 10 ^ 9"
    "- (ln (125::real) - 48283137373 / 10 ^ 10) \<le> 1 / 10 ^ 9"
    using ln_125_bounds by simp_all
  then have "\<bar>ln (125::real) - 48283137373 / 10 ^ 10\<bar> \<le> 1 / 10 ^ 9"
    by (simp only: abs_le_iff)
  then show "\<bar>- (ln (4/10) + ln (1 - 6/10) + ln (1/10) + ln (5/10)) - (48283137373 / 10 ^ 10 :: real)\<bar>
     \<le> 1 / 10 ^ 9"
    unfolding listy_listp_ln by simp
qed

subsection \<open>\<open>softmax\<close> on the empty sequence\<close>

text \<open>
  C10. On the empty sequence \<open>softmax\<close> returns the empty sequence, and the loop
  performs no division: the run ends with an empty result and a division count of zero.
  No operation of \<open>softmax\<close> can raise, so the function has no error outcome.
\<close>

theorem softmax_empty:
  "softmax [] = [] \<and> softmax_run [] = ([], 0)"
  by (simp add: softmax_def softmax_run_def np_exp_def np_sum_def)

end
